theory Spec2Isabelle
  imports Main "HOL-Library.Word" "HOL-Library.Multiset"
begin

section \<open>Data model\<close>

text \<open>
  Go's \<^verbatim>\<open>int\<close> is a 64-bit two's complement integer on the platforms the client is
  built for: \<open>+\<close> wraps, \<open>sint\<close> reads the signed value.
\<close>

type_synonym go_int = "64 word"

text \<open>A Go \<^verbatim>\<open>error\<close> value, identified by its message.\<close>

datatype error = Error string

text \<open>
  The fields of \<^verbatim>\<open>models.Service\<close>, \<^verbatim>\<open>models.Workers\<close> and \<^verbatim>\<open>models.Job\<close>
  that \<^verbatim>\<open>CmdList\<close> reads. A Go \<^verbatim>\<open>map[string]int\<close> is a partial function.
\<close>

record models_Service =
  ID :: string
  WorkerScale :: go_int

record models_Workers =
  Workers :: "string \<rightharpoonup> go_int"

record models_Job =
  Target :: string
  Status :: string

text \<open>The local struct \<^verbatim>\<open>workerJob\<close> of \<^verbatim>\<open>CmdList\<close> (list.go, lines 30-33).\<close>

record workerJob =
  scale :: go_int
  running :: go_int

text \<open>
  What a command writes: a line handed to \<^verbatim>\<open>logrus.Printf\<close>, or the rows handed to
  the table writer (\<^verbatim>\<open>table.AppendBulk(data); table.Render()\<close>), in the order given.
\<close>

datatype written = Log string | Table "string list list"

section \<open>Formatting\<close>

text \<open>\<^verbatim>\<open>fmt.Sprintf("%d", x)\<close>: the decimal digits of a signed integer.\<close>

function dec_digits :: "nat \<Rightarrow> string" where
  "dec_digits n =
     (if n < 10 then [''0123456789'' ! n]
      else dec_digits (n div 10) @ [''0123456789'' ! (n mod 10)])"
  by pat_completeness auto
termination
  by (relation "measure id") auto

declare dec_digits.simps [simp del]

definition fmt_d :: "go_int \<Rightarrow> string" where
  "fmt_d x =
     (if sint x < 0 then CHR ''-'' # dec_digits (nat (- sint x))
      else dec_digits (nat (sint x)))"

section \<open>Ranging over a Go map\<close>

text \<open>
  A \<^verbatim>\<open>for k, v := range m\<close> loop visits every key of \<open>m\<close> once, in an order the
  language leaves unspecified and that may differ from one loop to the next. The
  order of one loop is a list of keys; \<open>go_range m ks\<close> says that \<open>ks\<close> is an order
  the runtime may choose for \<open>m\<close>, and \<open>range_entries m ks\<close> are the pairs the loop
  body then sees.
\<close>

definition go_range :: "('k \<rightharpoonup> 'v) \<Rightarrow> 'k list \<Rightarrow> bool" where
  "go_range m ks \<longleftrightarrow> distinct ks \<and> set ks = dom m"

definition range_entries :: "('k \<rightharpoonup> 'v) \<Rightarrow> 'k list \<Rightarrow> ('k \<times> 'v) list" where
  "range_entries m ks = List.map_filter (\<lambda>k. map_option (Pair k) (m k)) ks"

section \<open>The worker list command (commands/worker/list.go)\<close>

text \<open>
  The collaborators of \<^verbatim>\<open>CmdList\<close> are interfaces; each is the function its one
  method used here computes. A Go result pair \<^verbatim>\<open>(value, err)\<close> is a sum: \<open>Inl err\<close>
  when \<^verbatim>\<open>err != nil\<close>. \<^verbatim>\<open>RetrieveByLabel\<close> may return a nil service with a nil
  error (\<open>Inr None\<close>), which \<^verbatim>\<open>CmdList\<close> tests for; \<^verbatim>\<open>Retrieve\<close> (lines 71-83) and
  \<^verbatim>\<open>RetrieveByType\<close> return a value whenever the error is nil.
\<close>

type_synonym IServices = "string \<Rightarrow> error + models_Service option"
type_synonym IWorker = "string \<Rightarrow> error + models_Workers"
type_synonym IJobs = "string \<Rightarrow> string \<Rightarrow> int \<Rightarrow> int \<Rightarrow> error + models_Job list"

text \<open>Lines 34-37: one entry per declared target, with no running job yet.\<close>

definition declare_workers :: "(string \<times> go_int) list \<Rightarrow> (string \<rightharpoonup> workerJob)" where
  "declare_workers kvs =
     fold (\<lambda>(target, s) workerJobs. workerJobs(target \<mapsto> \<lparr>scale = s, running = 0\<rparr>))
       kvs Map.empty"

text \<open>
  Lines 44-49, the body of the loop over the jobs. The map holds pointers, one
  struct per key, so the increment changes the entry of \<open>Target j\<close> only. The lookup
  of line 48 cannot miss (line 45 has just filled the key); its \<open>None\<close> branch is
  never taken, see \<open>count_job_target\<close>.
\<close>

definition count_job :: "models_Job \<Rightarrow> (string \<rightharpoonup> workerJob) \<Rightarrow> (string \<rightharpoonup> workerJob)" where
  "count_job j workerJobs =
     (let workerJobs1 =
        (case workerJobs (Target j) of
           None \<Rightarrow> workerJobs(Target j \<mapsto> \<lparr>scale = 0, running = 0\<rparr>)
         | Some _ \<Rightarrow> workerJobs)
      in if Status j = ''running'' then
           (case workerJobs1 (Target j) of
              Some wj \<Rightarrow> workerJobs1(Target j \<mapsto> wj\<lparr>running := running wj + 1\<rparr>)
            | None \<Rightarrow> workerJobs1)
         else workerJobs1)"

text \<open>
  Lines 34-50: the value of \<^verbatim>\<open>workerJobs\<close> when line 52 is reached, and \<open>None\<close> when
  the function has returned at line 41 because no target is declared. \<open>order1\<close> is
  the order in which the loop of line 35 visits \<^verbatim>\<open>workers.Workers\<close>.
\<close>

definition CmdList_workerJobs ::
  "(string \<rightharpoonup> go_int) \<Rightarrow> models_Job list \<Rightarrow> string list \<Rightarrow> (string \<rightharpoonup> workerJob) option" where
  "CmdList_workerJobs declared jobs order1 =
     (let workerJobs = declare_workers (range_entries declared order1)
      in if dom workerJobs = {} then None
         else Some (fold count_job jobs workerJobs))"

text \<open>Lines 52-57: the total and the rows, one row per visited entry.\<close>

definition table_rows :: "(string \<times> workerJob) list \<Rightarrow> go_int \<times> string list list" where
  "table_rows kvs =
     fold (\<lambda>(target, wj) (tot, data).
             (tot + scale wj, data @ [[target, fmt_d (scale wj), fmt_d (running wj)]]))
       kvs (0, [[''TARGET'', ''SCALE'', ''RUNNING JOBS'']])"

definition usage_line :: "string \<Rightarrow> string \<Rightarrow> string \<Rightarrow> string" where
  "usage_line used available svcName =
     ''\<newline>You are using '' @ used @ '' out of your available '' @ available
       @ '' workers for '' @ svcName"

text \<open>
  \<^verbatim>\<open>CmdList\<close>: the error returned (\<open>None\<close> is nil) and what was written. \<open>order1\<close>
  and \<open>order2\<close> are the orders of the two loops over maps (lines 35 and 54).
\<close>

definition CmdList ::
  "string \<Rightarrow> IWorker \<Rightarrow> IServices \<Rightarrow> IJobs \<Rightarrow> string list \<Rightarrow> string list
     \<Rightarrow> error option \<times> written list" where
  "CmdList svcName iw isv ij order1 order2 =
     (case isv svcName of
        Inl err \<Rightarrow> (Some err, [])
      | Inr None \<Rightarrow>
          (Some (Error (''Could not find a service with the label '' @ [CHR 0x22] @ svcName
             @ [CHR 0x22] @ ''. You can list services with the '' @ [CHR 0x22]
             @ ''datica services list'' @ [CHR 0x22] @ '' command.'')), [])
      | Inr (Some service) \<Rightarrow>
          (case iw (ID service) of
             Inl err \<Rightarrow> (Some err, [])
           | Inr workers \<Rightarrow>
               (case ij (ID service) ''worker'' 1 1000 of
                  Inl err \<Rightarrow> (Some err, [])
                | Inr jobs \<Rightarrow>
                    (case CmdList_workerJobs (Workers workers) jobs order1 of
                       None \<Rightarrow>
                         (None,
                          [Log (''No running workers found for '' @ svcName),
                           Log (usage_line ''0'' (fmt_d (WorkerScale service)) svcName)])
                     | Some workerJobs \<Rightarrow>
                         (case table_rows (range_entries workerJobs order2) of
                            (tot, data) \<Rightarrow>
                              (None,
                               [Table data,
                                Log (usage_line (fmt_d tot)
                                       (fmt_d (WorkerScale service)) svcName)]))))))"

text \<open>
  The single code path of the specification's design note: \<^verbatim>\<open>CmdList\<close> without the
  early return of lines 38-42, so that the jobs are always counted and the table
  always rendered. It is the specification's variant, not the repository's code, and
  is only compared with \<open>CmdList\<close>.
\<close>

definition CmdList_unified ::
  "string \<Rightarrow> IWorker \<Rightarrow> IServices \<Rightarrow> IJobs \<Rightarrow> string list \<Rightarrow> string list
     \<Rightarrow> error option \<times> written list" where
  "CmdList_unified svcName iw isv ij order1 order2 =
     (case isv svcName of
        Inl err \<Rightarrow> (Some err, [])
      | Inr None \<Rightarrow>
          (Some (Error (''Could not find a service with the label '' @ [CHR 0x22] @ svcName
             @ [CHR 0x22] @ ''. You can list services with the '' @ [CHR 0x22]
             @ ''datica services list'' @ [CHR 0x22] @ '' command.'')), [])
      | Inr (Some service) \<Rightarrow>
          (case iw (ID service) of
             Inl err \<Rightarrow> (Some err, [])
           | Inr workers \<Rightarrow>
               (case ij (ID service) ''worker'' 1 1000 of
                  Inl err \<Rightarrow> (Some err, [])
                | Inr jobs \<Rightarrow>
                    (case table_rows
                            (range_entries
                               (fold count_job jobs
                                  (declare_workers (range_entries (Workers workers) order1)))
                               order2) of
                       (tot, data) \<Rightarrow>
                         (None,
                          [Table data,
                           Log (usage_line (fmt_d tot)
                                  (fmt_d (WorkerScale service)) svcName)])))))"

subsection \<open>Vocabulary of the properties\<close>

text \<open>The number of job records of target \<open>t\<close> whose status is exactly "running".\<close>

definition running_jobs :: "models_Job list \<Rightarrow> string \<Rightarrow> nat" where
  "running_jobs jobs t =
     length (filter (\<lambda>j. Target j = t \<and> Status j = ''running'') jobs)"

text \<open>The header of the table (line 52) and the row of one entry (line 56).\<close>

definition table_header :: "string list" where
  "table_header = [''TARGET'', ''SCALE'', ''RUNNING JOBS'']"

definition row_of :: "string \<times> workerJob \<Rightarrow> string list" where
  "row_of e = [fst e, fmt_d (scale (snd e)), fmt_d (running (snd e))]"

text \<open>
  The summary in closed form: the declared scale (0 for a target that only a job
  names) and the number of running jobs, for every target declared or named by a job.
\<close>

definition summary_of :: "(string \<rightharpoonup> go_int) \<Rightarrow> models_Job list \<Rightarrow> (string \<rightharpoonup> workerJob)" where
  "summary_of declared jobs t =
     (case declared t of
        Some s \<Rightarrow> Some \<lparr>scale = s, running = of_nat (running_jobs jobs t)\<rparr>
      | None \<Rightarrow>
          if t \<in> Target ` set jobs
          then Some \<lparr>scale = 0, running = of_nat (running_jobs jobs t)\<rparr>
          else None)"

section \<open>The disassociate command\<close>

text \<open>
  \<^verbatim>\<open>Disassociate\<close> of package disassociate (list.go, lines 96-105, after the
  separator): the error returned, the settings after the call and what was written
  to standard output. \<^verbatim>\<open>CmdDisassociate\<close> (lines 92-94) calls it through its interface.
  \<^verbatim>\<open>config.DeleteBreadcrumb\<close> is not among the sources; it is a parameter, any
  function from the alias and the settings to the new settings.
\<close>

type_synonym 's IDisassociate = "string \<Rightarrow> 's \<Rightarrow> error option \<times> 's \<times> string list"

definition Disassociate :: "(string \<Rightarrow> 's \<Rightarrow> 's) \<Rightarrow> 's IDisassociate" where
  "Disassociate DeleteBreadcrumb alias settings =
     (None, DeleteBreadcrumb alias settings,
      [''WARNING: Your existing git remote *has not* been removed.\<newline>\<newline>'',
       ''Association cleared.\<newline>''])"

definition CmdDisassociate :: "string \<Rightarrow> 's IDisassociate \<Rightarrow> 's \<Rightarrow> error option \<times> 's \<times> string list" where
  "CmdDisassociate alias idis settings = idis alias settings"

text \<open>
  Modelled from the spec: \<^verbatim>\<open>config.DeleteBreadcrumb\<close>, which is missing from the
  sources. The specification calls the persisted state "an alias-to-environment
  breadcrumb table, mutated by Disassociate (delete)": the settings are that table,
  and deleting removes the alias from it.
\<close>

definition DeleteBreadcrumb :: "string \<Rightarrow> (string \<rightharpoonup> 'e) \<Rightarrow> (string \<rightharpoonup> 'e)" where
  "DeleteBreadcrumb alias environments = environments(alias := None)"

section \<open>The invites send command (unnamed/part_000)\<close>

text \<open>
  How the action of \<^verbatim>\<open>SendSubCmd\<close> ends: it returns, or \<^verbatim>\<open>logrus.Fatal\<close> logs the
  message and exits the process.
\<close>

datatype exit = Returned | Fatal string

fun message :: "error \<Rightarrow> string" where
  "message (Error m) = m"

text \<open>
  Lines 127-142. \<open>signin\<close> and \<open>association\<close> are the errors of \<^verbatim>\<open>Signin\<close> and
  \<^verbatim>\<open>CheckRequiredAssociation\<close>, \<open>cmdSend\<close> is \<^verbatim>\<open>CmdSend\<close> as a function of the
  email, the role and the environment name; \<open>member\<close> and \<open>adminRole\<close> are the flags
  \<^verbatim>\<open>-m\<close> (line 125, whose value is dropped) and \<^verbatim>\<open>-a\<close>. The result is how the
  action ends and the calls of \<^verbatim>\<open>CmdSend\<close> it has made, with their arguments.
\<close>

definition SendSubCmd_Action ::
  "error option \<Rightarrow> error option \<Rightarrow> (string \<Rightarrow> string \<Rightarrow> string \<Rightarrow> error option)
     \<Rightarrow> string \<Rightarrow> string \<Rightarrow> bool \<Rightarrow> bool \<Rightarrow> exit \<times> (string \<times> string \<times> string) list" where
  "SendSubCmd_Action signin association cmdSend envName email member adminRole =
     (case signin of
        Some err \<Rightarrow> (Fatal (message err), [])
      | None \<Rightarrow>
          (case association of
             Some err \<Rightarrow> (Fatal (message err), [])
           | None \<Rightarrow>
               (let role = ''member'';
                    role = (if adminRole then ''admin'' else role)
                in (case cmdSend email role envName of
                      Some err \<Rightarrow> (Fatal (message err), [(email, role, envName)])
                    | None \<Rightarrow> (Returned, [(email, role, envName)])))))"

section \<open>Concrete inputs\<close>

text \<open>The scenarios of the specification, as collaborators that answer with fixed data.\<close>

definition the_service :: models_Service where
  "the_service = \<lparr>ID = ''svc-1'', WorkerScale = 5\<rparr>"

definition services_ok :: IServices where
  "services_ok label = Inr (Some the_service)"

definition workers_ok :: "(string \<rightharpoonup> go_int) \<Rightarrow> IWorker" where
  "workers_ok declared svcID = Inr \<lparr>Workers = declared\<rparr>"

definition jobs_ok :: "models_Job list \<Rightarrow> IJobs" where
  "jobs_ok jobs svcID jobType page pageSize = Inr jobs"

definition jobs_failing :: IJobs where
  "jobs_failing svcID jobType page pageSize = Inl (Error ''502 Bad Gateway'')"

definition declared1 :: "string \<rightharpoonup> go_int" where
  "declared1 = [''worker-a'' \<mapsto> 2, ''worker-b'' \<mapsto> 1]"

definition jobs1 :: "models_Job list" where
  "jobs1 =
     [\<lparr>Target = ''worker-a'', Status = ''running''\<rparr>,
      \<lparr>Target = ''worker-a'', Status = ''running''\<rparr>,
      \<lparr>Target = ''worker-b'', Status = ''pending''\<rparr>]"

definition declared3 :: "string \<rightharpoonup> go_int" where
  "declared3 = [''worker-a'' \<mapsto> 1]"

definition jobs3 :: "models_Job list" where
  "jobs3 = [\<lparr>Target = ''worker-x'', Status = ''running''\<rparr>]"

definition send_ok :: "string \<Rightarrow> string \<Rightarrow> string \<Rightarrow> error option" where
  "send_ok email role envName = None"

section \<open>Properties\<close>

subsection \<open>The loops in closed form\<close>

lemma count_job_target: "count_job j m (Target j) \<noteq> None"
  by (simp add: count_job_def Let_def split: option.splits)

lemma fold_declare:
  "fold (\<lambda>(target, s) workerJobs. workerJobs(target \<mapsto> \<lparr>scale = s, running = 0\<rparr>))
     (range_entries D ks) m0 t =
   (if t \<in> set ks \<and> D t \<noteq> None
    then map_option (\<lambda>s. \<lparr>scale = s, running = 0\<rparr>) (D t) else m0 t)"
  by (induction ks arbitrary: m0)
     (auto simp: range_entries_def map_filter_simps split: option.splits)

lemma declare_workers_range:
  "go_range D ks \<Longrightarrow>
   declare_workers (range_entries D ks) =
     (\<lambda>t. map_option (\<lambda>s. \<lparr>scale = s, running = 0\<rparr>) (D t))"
  by (auto simp: declare_workers_def fold_declare go_range_def fun_eq_iff)

lemma count_job_apply:
  "count_job j m t =
    (if t = Target j then
       Some (case m t of
               None \<Rightarrow> \<lparr>scale = 0, running = (if Status j = ''running'' then 1 else 0)\<rparr>
             | Some wj \<Rightarrow>
                 (if Status j = ''running'' then wj\<lparr>running := running wj + 1\<rparr> else wj))
     else m t)"
  by (simp add: count_job_def Let_def split: option.splits)

lemma fold_count_job:
  "fold count_job J m t =
    (case m t of
       Some wj \<Rightarrow> Some (wj\<lparr>running := running wj + of_nat (running_jobs J t)\<rparr>)
     | None \<Rightarrow> if t \<in> Target ` set J
               then Some \<lparr>scale = 0, running = of_nat (running_jobs J t)\<rparr> else None)"
proof (induction J arbitrary: m)
  case Nil
  then show ?case by (simp add: running_jobs_def split: option.splits)
next
  case (Cons j J)
  have "fold count_job (j # J) m t = fold count_job J (count_job j m) t"
    by simp
  also have "\<dots> =
    (case count_job j m t of
       Some wj \<Rightarrow> Some (wj\<lparr>running := running wj + of_nat (running_jobs J t)\<rparr>)
     | None \<Rightarrow> if t \<in> Target ` set J
               then Some \<lparr>scale = 0, running = of_nat (running_jobs J t)\<rparr> else None)"
    by (rule Cons.IH)
  also have "\<dots> =
    (case m t of
       Some wj \<Rightarrow> Some (wj\<lparr>running := running wj + of_nat (running_jobs (j # J) t)\<rparr>)
     | None \<Rightarrow> if t \<in> Target ` set (j # J)
               then Some \<lparr>scale = 0, running = of_nat (running_jobs (j # J) t)\<rparr> else None)"
    by (simp add: count_job_apply running_jobs_def split: option.splits)
  finally show ?case .
qed

lemma fold_count_job_declared:
  assumes "go_range D ks"
  shows "fold count_job J (declare_workers (range_entries D ks)) = summary_of D J"
  using assms
  by (auto simp: fun_eq_iff fold_count_job declare_workers_range summary_of_def
           split: option.splits)

lemma CmdList_workerJobs_eq:
  assumes "go_range D ks"
  shows "CmdList_workerJobs D J ks = (if dom D = {} then None else Some (summary_of D J))"
proof -
  have d: "dom (declare_workers (range_entries D ks)) = dom D"
    using assms by (auto simp: declare_workers_range dom_def)
  show ?thesis
    by (simp add: CmdList_workerJobs_def Let_def d fold_count_job_declared [OF assms]
             del: dom_eq_empty_conv)
qed

lemma dom_summary_of: "dom (summary_of D J) = dom D \<union> Target ` set J"
  by (auto simp: summary_of_def dom_def split: option.splits if_splits)

lemma range_entries_map:
  "set ks \<subseteq> dom m \<Longrightarrow> range_entries m ks = map (\<lambda>k. (k, the (m k))) ks"
  by (induction ks) (auto simp: range_entries_def map_filter_simps)

lemma count_list_distinct:
  "distinct xs \<Longrightarrow> count_list xs x = (if x \<in> set xs then 1 else 0)"
  by (induction xs) auto

lemma range_entries_empty: "dom m = {} \<Longrightarrow> range_entries m ks = []"
  by (induction ks) (simp_all add: range_entries_def map_filter_simps)

lemma CmdList_workerJobs_empty:
  "dom declared = {} \<Longrightarrow> CmdList_workerJobs declared jobs order1 = None"
  by (simp add: CmdList_workerJobs_def range_entries_empty declare_workers_def)

lemma summary_of_empty:
  "dom D = {} \<Longrightarrow> fold count_job J (declare_workers (range_entries D ks)) = summary_of Map.empty J"
  by (auto simp: range_entries_empty declare_workers_def fun_eq_iff fold_count_job summary_of_def)

subsection \<open>The table and the total\<close>

lemma fold_rows:
  "fold (\<lambda>(target, wj) (tot, data).
           (tot + scale wj, data @ [[target, fmt_d (scale wj), fmt_d (running wj)]])) kvs (a, d)
   = (a + sum_list (map (\<lambda>e. scale (snd e)) kvs), d @ map row_of kvs)"
  by (induction kvs arbitrary: a d) (auto simp: row_of_def add.assoc)

lemma table_rows_eq:
  "table_rows kvs = (sum_list (map (\<lambda>e. scale (snd e)) kvs), table_header # map row_of kvs)"
  by (simp add: table_rows_def fold_rows table_header_def)

lemma table_rows_range:
  assumes "go_range m ks"
  shows "table_rows (range_entries m ks) =
    (\<Sum>t\<in>dom m. scale (the (m t)), table_header # map (\<lambda>k. row_of (k, the (m k))) ks)"
  using assms
  by (simp add: table_rows_eq go_range_def range_entries_map comp_def
      sum_list_distinct_conv_sum_set)

lemma finite_dom_range: "go_range m ks \<Longrightarrow> finite (dom m)"
  by (metis go_range_def List.finite_set)

lemma sum_scale_summary_of:
  assumes "finite (dom D)" and "finite (set J)"
  shows "(\<Sum>t\<in>dom (summary_of D J). scale (the (summary_of D J t))) = (\<Sum>t\<in>dom D. the (D t))"
proof -
  have "(\<Sum>t\<in>dom D. the (D t)) = (\<Sum>t\<in>dom D \<union> Target ` set J. scale (the (summary_of D J t)))"
    by (rule sum.mono_neutral_cong_left)
       (auto simp: assms summary_of_def split: option.splits)
  then show ?thesis by (simp add: dom_summary_of)
qed

lemma fmt_d_0: "fmt_d 0 = ''0''"
  by (simp add: fmt_d_def dec_digits.simps)

lemma row_of_summary_empty:
  "t \<in> Target ` set J \<Longrightarrow>
   row_of (t, the (summary_of Map.empty J t)) = [t, ''0'', fmt_d (of_nat (running_jobs J t))]"
  by (simp add: row_of_def summary_of_def fmt_d_0)

lemma mset_range: "go_range m ks \<Longrightarrow> go_range m ks' \<Longrightarrow> mset ks = mset ks'"
  by (simp add: go_range_def set_eq_iff_mset_eq_distinct [symmetric])

text \<open>
  Where no wrap-around occurs, the 64-bit results are the exact integers.
\<close>

lemma sint_sum_exact:
  fixes f :: "'a \<Rightarrow> go_int"
  assumes "- (2 ^ 63) \<le> (\<Sum>x\<in>A. sint (f x))" and "(\<Sum>x\<in>A. sint (f x)) < 2 ^ 63"
  shows "sint (\<Sum>x\<in>A. f x) = (\<Sum>x\<in>A. sint (f x))"
proof -
  have "(\<Sum>x\<in>A. f x) = word_of_int (\<Sum>x\<in>A. sint (f x))"
    by (simp add: of_int_sum)
  then have "sint (\<Sum>x\<in>A. f x) = sint (word_of_int (\<Sum>x\<in>A. sint (f x)) :: go_int)"
    by simp
  also have "\<dots> = signed_take_bit 63 (\<Sum>x\<in>A. sint (f x))"
    by (simp only: sint_sbintrunc') simp
  finally show ?thesis using assms
    by (simp add: signed_take_bit_int_eq_self)
qed

lemma sint_of_nat_exact:
  assumes "n < 2 ^ 63" shows "sint (of_nat n :: go_int) = int n"
proof -
  have "sint (word_of_int (int n) :: go_int) = signed_take_bit 63 (int n)"
    by (simp only: sint_sbintrunc') simp
  moreover have "signed_take_bit 63 (int n) = int n"
    using assms by (intro signed_take_bit_int_eq_self) auto
  ultimately show ?thesis by simp
qed

subsection \<open>The scenarios of the specification, evaluated\<close>

text \<open>
  Scenario 1 (two declared targets, three jobs) and scenario 3 (one declared target,
  one job of another target), with the orders in which the loops visit the maps.
\<close>

lemma range1: "go_range declared1 [''worker-b'', ''worker-a'']"
  by (auto simp: go_range_def declared1_def)

lemma range1_ab: "go_range declared1 [''worker-a'', ''worker-b'']"
  by (auto simp: go_range_def declared1_def)

lemma run1: "CmdList_workerJobs declared1 jobs1 [''worker-b'', ''worker-a''] \<noteq> None"
  by (simp add: CmdList_workerJobs_def Let_def declare_workers_def range_entries_def
      map_filter_simps declared1_def)

lemma summary1: "CmdList_workerJobs declared1 jobs1 [''worker-b'', ''worker-a''] =
    Some (summary_of declared1 jobs1)"
  by (simp add: CmdList_workerJobs_eq [OF range1]) (simp add: declared1_def)

lemma range_summary1:
  "go_range (summary_of declared1 jobs1) [''worker-a'', ''worker-b'']"
  "go_range (summary_of declared1 jobs1) [''worker-b'', ''worker-a'']"
  by (auto simp: go_range_def dom_summary_of declared1_def jobs1_def)

lemma range3: "go_range declared3 [''worker-a'']"
  by (auto simp: go_range_def declared3_def)

lemma run3: "CmdList_workerJobs declared3 jobs3 [''worker-a''] \<noteq> None"
  by (simp add: CmdList_workerJobs_def Let_def declare_workers_def range_entries_def
      map_filter_simps declared3_def)

lemma range3x: "go_range (fold count_job jobs3 Map.empty) [''worker-x'']"
  by (auto simp: go_range_def jobs3_def count_job_def Let_def)

lemma scenario1_output:
  "CmdList ''web'' (workers_ok declared1) services_ok (jobs_ok jobs1)
     [''worker-b'', ''worker-a''] [''worker-a'', ''worker-b''] =
   (None,
    [Table [[''TARGET'', ''SCALE'', ''RUNNING JOBS''],
            [''worker-a'', ''2'', ''2''],
            [''worker-b'', ''1'', ''0'']],
     Log (usage_line ''3'' ''5'' ''web'')])"
  by (simp add: CmdList_def services_ok_def workers_ok_def jobs_ok_def the_service_def
      CmdList_workerJobs_def Let_def declare_workers_def range_entries_def map_filter_simps
      declared1_def jobs1_def count_job_def table_rows_def fmt_d_def dec_digits.simps)

lemma scenario3_output:
  "CmdList ''web'' (workers_ok declared3) services_ok (jobs_ok jobs3)
     [''worker-a''] [''worker-x'', ''worker-a''] =
   (None,
    [Table [[''TARGET'', ''SCALE'', ''RUNNING JOBS''],
            [''worker-x'', ''0'', ''1''],
            [''worker-a'', ''1'', ''0'']],
     Log (usage_line ''1'' ''5'' ''web'')])"
  by (simp add: CmdList_def services_ok_def workers_ok_def jobs_ok_def the_service_def
      CmdList_workerJobs_def Let_def declare_workers_def range_entries_def map_filter_simps
      declared3_def jobs3_def count_job_def table_rows_def fmt_d_def dec_digits.simps)

subsection \<open>The summary of the worker list\<close>

text \<open>
  Claim C1, as amended. For every non-empty declarations mapping and every job
  sequence, once both fetches have succeeded \<^verbatim>\<open>CmdList\<close> builds a summary whose keys
  are exactly the targets declared or named by a job; and a loop over the summary,
  whatever order the runtime chooses, meets each of these targets exactly once and
  no other key.
\<close>

theorem summary_keys_exactly_once:
  assumes "go_range declared order1"
    and "dom declared \<noteq> {}"
  shows "\<exists>summary.
           CmdList_workerJobs declared jobs order1 = Some summary \<and>
           dom summary = dom declared \<union> Target ` set jobs \<and>
           (\<forall>order2 t. go_range summary order2 \<longrightarrow>
              count_list (map fst (range_entries summary order2)) t =
                (if t \<in> dom declared \<union> Target ` set jobs then 1 else 0))"
proof -
  let ?summary = "summary_of declared jobs"
  have s: "CmdList_workerJobs declared jobs order1 = Some ?summary"
    using assms by (simp add: CmdList_workerJobs_eq del: dom_eq_empty_conv)
  have d: "dom ?summary = dom declared \<union> Target ` set jobs"
    by (simp add: dom_summary_of)
  have "count_list (map fst (range_entries ?summary order2)) t =
         (if t \<in> dom declared \<union> Target ` set jobs then 1 else 0)"
    if r: "go_range ?summary order2" for order2 t
  proof -
    from r have "map fst (range_entries ?summary order2) = order2"
      by (simp add: go_range_def range_entries_map comp_def)
    moreover from r have "distinct order2" "set order2 = dom declared \<union> Target ` set jobs"
      by (simp_all add: go_range_def d)
    ultimately show ?thesis
      by (simp add: count_list_distinct)
  qed
  with s d show ?thesis by blast
qed

theorem summary_keys_exactly_once_witness:
  "go_range declared3 [''worker-a''] \<and> dom declared3 \<noteq> {} \<and>
   (\<exists>summary. CmdList_workerJobs declared3 jobs3 [''worker-a''] = Some summary \<and>
      dom summary = {''worker-a'', ''worker-x''} \<and>
      count_list (map fst (range_entries summary [''worker-x'', ''worker-a''])) ''worker-x'' = 1 \<and>
      count_list (map fst (range_entries summary [''worker-x'', ''worker-a''])) ''worker-a'' = 1 \<and>
      count_list (map fst (range_entries summary [''worker-x'', ''worker-a''])) ''worker-b'' = 0)"
proof -
  have n: "dom declared3 \<noteq> {}"
    by (simp add: declared3_def)
  from summary_keys_exactly_once [OF range3 n, of jobs3] obtain summary where
    s: "CmdList_workerJobs declared3 jobs3 [''worker-a''] = Some summary"
    and d: "dom summary = dom declared3 \<union> Target ` set jobs3"
    and c: "\<And>order2 t. go_range summary order2 \<Longrightarrow>
              count_list (map fst (range_entries summary order2)) t =
                (if t \<in> dom declared3 \<union> Target ` set jobs3 then 1 else 0)"
    by blast
  have d': "dom summary = {''worker-a'', ''worker-x''}"
    using d by (auto simp: declared3_def jobs3_def)
  then have r: "go_range summary [''worker-x'', ''worker-a'']"
    by (auto simp: go_range_def)
  from c [OF r, of "''worker-x''"] c [OF r, of "''worker-a''"] c [OF r, of "''worker-b''"]
  show ?thesis
    using range3 n s d' by (simp add: declared3_def jobs3_def)
qed

text \<open>
  Claim C1 as stated, for every declarations mapping, fails when none is declared:
  both fetches succeed, the job names the target worker-x, and \<^verbatim>\<open>CmdList\<close> returns at
  line 41 with an empty \<^verbatim>\<open>workerJobs\<close>, so that worker-x is a key of no summary and
  no table is written.
\<close>

theorem no_summary_without_declarations_counterexample:
  "services_ok ''web'' = Inr (Some the_service) \<and>
   workers_ok Map.empty (ID the_service) = Inr \<lparr>Workers = Map.empty\<rparr> \<and>
   jobs_ok jobs3 (ID the_service) ''worker'' 1 1000 = Inr jobs3 \<and>
   go_range (Map.empty :: string \<rightharpoonup> go_int) [] \<and>
   ''worker-x'' \<in> Target ` set jobs3 \<and>
   CmdList_workerJobs Map.empty jobs3 [] = None \<and>
   declare_workers (range_entries Map.empty []) ''worker-x'' = None \<and>
   CmdList ''web'' (workers_ok Map.empty) services_ok (jobs_ok jobs3) [] [''worker-x''] =
     (None, [Log ''No running workers found for web'', Log (usage_line ''0'' ''5'' ''web'')])"
  by (simp add: CmdList_def services_ok_def workers_ok_def jobs_ok_def the_service_def
      CmdList_workerJobs_def Let_def declare_workers_def range_entries_def map_filter_simps
      jobs3_def go_range_def fmt_d_def dec_digits.simps)

text \<open>
  Claim C2. In the summary the reconciliation produces, a target that only a job
  names has scale 0, and a target that is only declared has a running count of 0.
\<close>

theorem only_jobs_scale_only_declared_running:
  assumes "go_range declared order1"
    and "CmdList_workerJobs declared jobs order1 = Some summary"
  shows "(\<forall>t. t \<in> Target ` set jobs \<and> t \<notin> dom declared \<longrightarrow>
            (\<exists>wj. summary t = Some wj \<and> scale wj = 0)) \<and>
         (\<forall>t. t \<in> dom declared \<and> t \<notin> Target ` set jobs \<longrightarrow>
            (\<exists>wj. summary t = Some wj \<and> running wj = 0))"
proof -
  from assms have s: "summary = summary_of declared jobs"
    by (simp add: CmdList_workerJobs_eq split: if_splits)
  have r: "running_jobs jobs t = 0" if "t \<notin> Target ` set jobs" for t
    using that by (auto simp: running_jobs_def filter_empty_conv)
  show ?thesis
    by (auto simp: s summary_of_def r split: option.splits)
qed

theorem only_jobs_scale_only_declared_running_witness:
  "go_range declared3 [''worker-a''] \<and>
   (\<exists>summary. CmdList_workerJobs declared3 jobs3 [''worker-a''] = Some summary \<and>
      (\<exists>wj. summary ''worker-x'' = Some wj \<and> scale wj = 0) \<and>
      (\<exists>wj. summary ''worker-a'' = Some wj \<and> running wj = 0))"
proof -
  obtain summary where
    s: "CmdList_workerJobs declared3 jobs3 [''worker-a''] = Some summary"
    using run3 by blast
  note k = only_jobs_scale_only_declared_running [OF range3 s]
  have "''worker-x'' \<in> Target ` set jobs3 \<and> ''worker-x'' \<notin> dom declared3"
    and "''worker-a'' \<in> dom declared3 \<and> ''worker-a'' \<notin> Target ` set jobs3"
    by (simp_all add: declared3_def jobs3_def)
  with k show ?thesis
    using range3 s by blast
qed

text \<open>
  Claim C3. After both fetches have succeeded, the last line \<^verbatim>\<open>CmdList\<close> writes
  reports as total the sum of the declared scales, which does not mention the jobs:
  it is the same for every job sequence. Whenever the summary exists, that total is
  the sum of the scale values over all its entries. The sums are Go's (64-bit,
  wrapping); when the exact sum of the signed scales fits in 64 bits, the total is
  that exact sum.
\<close>

theorem total_is_sum_of_declared_scales:
  assumes svc: "isv svcName = Inr (Some service)"
    and ws: "iw (ID service) = Inr workers"
    and js: "ij (ID service) ''worker'' 1 1000 = Inr jobs"
    and r1: "go_range (Workers workers) order1"
    and r2: "case CmdList_workerJobs (Workers workers) jobs order1 of
               None \<Rightarrow> True | Some summary \<Rightarrow> go_range summary order2"
  shows "(\<exists>out. CmdList svcName iw isv ij order1 order2 =
            (None, out @ [Log (usage_line
               (fmt_d (\<Sum>t\<in>dom (Workers workers). the (Workers workers t)))
               (fmt_d (WorkerScale service)) svcName)])) \<and>
         (\<forall>summary. CmdList_workerJobs (Workers workers) jobs order1 = Some summary \<longrightarrow>
            (\<Sum>t\<in>dom summary. scale (the (summary t))) =
              (\<Sum>t\<in>dom (Workers workers). the (Workers workers t))) \<and>
         (- (2 ^ 63) \<le> (\<Sum>t\<in>dom (Workers workers). sint (the (Workers workers t))) \<and>
          (\<Sum>t\<in>dom (Workers workers). sint (the (Workers workers t))) < 2 ^ 63 \<longrightarrow>
            sint (\<Sum>t\<in>dom (Workers workers). the (Workers workers t)) =
              (\<Sum>t\<in>dom (Workers workers). sint (the (Workers workers t))))"
proof -
  let ?D = "Workers workers"
  let ?u = "\<lambda>n. Log (usage_line n (fmt_d (WorkerScale service)) svcName)"
  have fin: "finite (dom ?D)"
    using r1 by (rule finite_dom_range)
  have sums: "(\<Sum>t\<in>dom (summary_of ?D jobs). scale (the (summary_of ?D jobs t))) =
      (\<Sum>t\<in>dom ?D. the (?D t))"
    using fin by (simp add: sum_scale_summary_of)
  have "\<exists>out. CmdList svcName iw isv ij order1 order2 =
      (None, out @ [?u (fmt_d (\<Sum>t\<in>dom ?D. the (?D t)))])"
  proof (cases "dom ?D = {}")
    case True
    then have "CmdList svcName iw isv ij order1 order2 =
        (None, [Log (''No running workers found for '' @ svcName)] @ [?u ''0''])"
      by (simp add: CmdList_def svc ws js CmdList_workerJobs_eq [OF r1] del: dom_eq_empty_conv)
    with True show ?thesis
      by (auto simp: fmt_d_0 simp del: dom_eq_empty_conv)
  next
    case False
    then have s: "CmdList_workerJobs ?D jobs order1 = Some (summary_of ?D jobs)"
      by (simp add: CmdList_workerJobs_eq [OF r1] del: dom_eq_empty_conv)
    with r2 have "go_range (summary_of ?D jobs) order2"
      by simp
    then have "CmdList svcName iw isv ij order1 order2 =
        (None, [Table (table_header # map (\<lambda>k. row_of (k, the (summary_of ?D jobs k))) order2)]
               @ [?u (fmt_d (\<Sum>t\<in>dom ?D. the (?D t)))])"
      by (simp add: CmdList_def svc ws js s table_rows_range sums)
    then show ?thesis by blast
  qed
  moreover have "(\<Sum>t\<in>dom summary. scale (the (summary t))) = (\<Sum>t\<in>dom ?D. the (?D t))"
    if "CmdList_workerJobs ?D jobs order1 = Some summary" for summary
    using that sums by (simp add: CmdList_workerJobs_eq [OF r1] split: if_splits)
  ultimately show ?thesis
    using sint_sum_exact [where A = "dom ?D" and f = "\<lambda>t. the (?D t)"] by blast
qed

theorem total_is_sum_of_declared_scales_witness:
  "services_ok ''web'' = Inr (Some the_service) \<and>
   workers_ok declared1 (ID the_service) = Inr \<lparr>Workers = declared1\<rparr> \<and>
   jobs_ok jobs1 (ID the_service) ''worker'' 1 1000 = Inr jobs1 \<and>
   go_range declared1 [''worker-b'', ''worker-a''] \<and>
   (\<exists>out. CmdList ''web'' (workers_ok declared1) services_ok (jobs_ok jobs1)
            [''worker-b'', ''worker-a''] [''worker-a'', ''worker-b''] =
          (None, out @ [Log (usage_line ''3'' ''5'' ''web'')])) \<and>
   (\<exists>summary. CmdList_workerJobs declared1 jobs1 [''worker-b'', ''worker-a''] = Some summary \<and>
      (\<Sum>t\<in>dom summary. scale (the (summary t))) = 3)"
proof -
  have svc: "services_ok ''web'' = Inr (Some the_service)"
    by (simp add: services_ok_def)
  have ws: "workers_ok declared1 (ID the_service) = Inr \<lparr>Workers = declared1\<rparr>"
    by (simp add: workers_ok_def)
  have js: "jobs_ok jobs1 (ID the_service) ''worker'' 1 1000 = Inr jobs1"
    by (simp add: jobs_ok_def)
  have r1: "go_range (Workers \<lparr>Workers = declared1\<rparr>) [''worker-b'', ''worker-a'']"
    using range1 by simp
  obtain summary where
    s: "CmdList_workerJobs declared1 jobs1 [''worker-b'', ''worker-a''] = Some summary"
    using run1 by blast
  then have "summary = summary_of declared1 jobs1"
    by (simp add: CmdList_workerJobs_eq [OF range1] split: if_splits)
  then have "go_range summary [''worker-a'', ''worker-b'']"
    by (auto simp: go_range_def dom_summary_of declared1_def jobs1_def)
  with s have r2: "case CmdList_workerJobs (Workers \<lparr>Workers = declared1\<rparr>) jobs1
         [''worker-b'', ''worker-a''] of
       None \<Rightarrow> True | Some summary \<Rightarrow> go_range summary [''worker-a'', ''worker-b'']"
    by simp
  have d: "dom declared1 = {''worker-a'', ''worker-b''}"
    by (auto simp: declared1_def)
  have t: "(\<Sum>t\<in>dom declared1. the (declared1 t)) = 3"
    by (simp add: d) (simp add: declared1_def)
  have f: "fmt_d 3 = ''3''" "fmt_d (WorkerScale the_service) = ''5''"
    by (simp_all add: fmt_d_def dec_digits.simps the_service_def)
  from total_is_sum_of_declared_scales
         [where isv = services_ok and svcName = "''web''" and iw = "workers_ok declared1"
            and ij = "jobs_ok jobs1", OF svc ws js r1 r2]
  show ?thesis
    using svc ws js range1 s by (simp add: t f)
qed

text \<open>
  Claim C4. For every target of the summary the reconciliation produces, the running
  count is the number of job records of that target whose status is exactly
  "running" (as a 64-bit value, and as the exact number for a job sequence of fewer
  than \<open>2 ^ 63\<close> records); every job target is a key of the summary; and a job of any
  other status leaves every existing entry as it is, adding the entry \<open>(0, 0)\<close> when
  its target is new.
\<close>

theorem running_counts_running_jobs:
  assumes "go_range declared order1"
    and "CmdList_workerJobs declared jobs order1 = Some summary"
    and "summary t = Some wj"
  shows "running wj = of_nat (running_jobs jobs t) \<and>
         (length jobs < 2 ^ 63 \<longrightarrow> sint (running wj) = int (running_jobs jobs t)) \<and>
         Target ` set jobs \<subseteq> dom summary \<and>
         (\<forall>j m. Status j \<noteq> ''running'' \<longrightarrow>
            (\<forall>t' wj'. m t' = Some wj' \<longrightarrow> count_job j m t' = Some wj') \<and>
            (m (Target j) = None \<longrightarrow>
               count_job j m (Target j) = Some \<lparr>scale = 0, running = 0\<rparr>))"
proof -
  from assms(1,2) have s: "summary = summary_of declared jobs"
    by (simp add: CmdList_workerJobs_eq split: if_splits)
  have r: "running wj = of_nat (running_jobs jobs t)"
    using assms(3) by (auto simp: s summary_of_def split: option.splits if_splits)
  have "running_jobs jobs t \<le> length jobs"
    by (simp add: running_jobs_def)
  then have "sint (running wj) = int (running_jobs jobs t)" if "length jobs < 2 ^ 63"
    using that by (simp add: r sint_of_nat_exact)
  moreover have "Target ` set jobs \<subseteq> dom summary"
    by (simp add: s dom_summary_of)
  moreover have "count_job j m t' = Some wj'"
    if "Status j \<noteq> ''running''" "m t' = Some wj'" for j m t' wj'
    using that by (auto simp: count_job_apply)
  moreover have "count_job j m (Target j) = Some \<lparr>scale = 0, running = 0\<rparr>"
    if "Status j \<noteq> ''running''" "m (Target j) = None" for j m
    using that by (simp add: count_job_apply)
  ultimately show ?thesis
    using r by blast
qed

theorem running_counts_running_jobs_witness:
  "go_range declared1 [''worker-b'', ''worker-a''] \<and>
   length jobs1 < 2 ^ 63 \<and>
   (\<exists>summary wj.
      CmdList_workerJobs declared1 jobs1 [''worker-b'', ''worker-a''] = Some summary \<and>
      summary ''worker-a'' = Some wj \<and> running wj = 2 \<and> sint (running wj) = 2 \<and>
      ''worker-b'' \<in> dom summary) \<and>
   Status \<lparr>Target = ''worker-b'', Status = ''pending''\<rparr> \<noteq> ''running'' \<and>
   count_job \<lparr>Target = ''worker-b'', Status = ''pending''\<rparr> Map.empty ''worker-b'' =
     Some \<lparr>scale = 0, running = 0\<rparr>"
proof -
  obtain summary where
    s: "CmdList_workerJobs declared1 jobs1 [''worker-b'', ''worker-a''] = Some summary"
    using run1 by blast
  then have "summary = summary_of declared1 jobs1"
    by (simp add: CmdList_workerJobs_eq [OF range1] split: if_splits)
  then obtain wj where w: "summary ''worker-a'' = Some wj"
    by (simp add: summary_of_def declared1_def)
  have n: "running_jobs jobs1 ''worker-a'' = 2" "length jobs1 < 2 ^ 63"
    by (simp_all add: running_jobs_def jobs1_def)
  have b: "''worker-b'' \<in> Target ` set jobs1"
    by (simp add: jobs1_def)
  note k = running_counts_running_jobs [OF range1 s w]
  have p: "Status \<lparr>Target = ''worker-b'', Status = ''pending''\<rparr> \<noteq> ''running''"
    by simp
  from k have
    "Status j \<noteq> ''running'' \<longrightarrow>
       (m (Target j) = None \<longrightarrow> count_job j m (Target j) = Some \<lparr>scale = 0, running = 0\<rparr>)"
    for j m
    by blast
  from this [of "\<lparr>Target = ''worker-b'', Status = ''pending''\<rparr>" Map.empty]
  have c: "count_job \<lparr>Target = ''worker-b'', Status = ''pending''\<rparr> Map.empty ''worker-b'' =
      Some \<lparr>scale = 0, running = 0\<rparr>"
    by simp
  from k have "running wj = 2" "sint (running wj) = 2" "''worker-b'' \<in> dom summary"
    using n b by auto
  then show ?thesis
    using range1 s w n p c by blast
qed

subsection \<open>No declared target\<close>

text \<open>
  Claim C5, as amended. When the service is found, the declarations fetched are empty
  and the fetch of the jobs succeeds, \<^verbatim>\<open>CmdList\<close> returns no error and writes two
  lines, "No running workers found" and a usage of 0 out of the declared worker
  scale; it writes no table and builds no summary, whatever the jobs are.
\<close>

theorem no_workers_short_circuit:
  assumes "isv svcName = Inr (Some service)"
    and "iw (ID service) = Inr workers"
    and "dom (Workers workers) = {}"
    and "ij (ID service) ''worker'' 1 1000 = Inr jobs"
  shows "CmdList svcName iw isv ij order1 order2 =
           (None,
            [Log (''No running workers found for '' @ svcName),
             Log (usage_line ''0'' (fmt_d (WorkerScale service)) svcName)]) \<and>
         CmdList_workerJobs (Workers workers) jobs order1 = None"
  using assms by (simp add: CmdList_def CmdList_workerJobs_empty del: dom_eq_empty_conv)

theorem no_workers_short_circuit_witness:
  "services_ok ''web'' = Inr (Some the_service) \<and>
   workers_ok Map.empty (ID the_service) = Inr \<lparr>Workers = Map.empty\<rparr> \<and>
   dom (Workers \<lparr>Workers = Map.empty\<rparr>) = {} \<and>
   jobs_ok jobs3 (ID the_service) ''worker'' 1 1000 = Inr jobs3 \<and>
   CmdList ''web'' (workers_ok Map.empty) services_ok (jobs_ok jobs3) [] [''worker-x''] =
     (None,
      [Log ''No running workers found for web'', Log (usage_line ''0'' ''5'' ''web'')])"
proof -
  have svc: "services_ok ''web'' = Inr (Some the_service)"
    by (simp add: services_ok_def)
  have ws: "workers_ok Map.empty (ID the_service) = Inr \<lparr>Workers = Map.empty\<rparr>"
    by (simp add: workers_ok_def)
  have e: "dom (Workers \<lparr>Workers = Map.empty :: string \<rightharpoonup> go_int\<rparr>) = {}"
    by simp
  have js: "jobs_ok jobs3 (ID the_service) ''worker'' 1 1000 = Inr jobs3"
    by (simp add: jobs_ok_def)
  have f: "fmt_d (WorkerScale the_service) = ''5''"
    by (simp add: fmt_d_def dec_digits.simps the_service_def)
  from no_workers_short_circuit
         [where isv = services_ok and svcName = "''web''" and iw = "workers_ok Map.empty"
            and ij = "jobs_ok jobs3" and ?order1.0 = "[]" and ?order2.0 = "[''worker-x'']",
          OF svc ws e js]
  show ?thesis
    using svc ws js by (simp add: f)
qed

text \<open>
  Claim C5 as stated, for every invocation with empty declarations, fails when the
  fetch of the jobs fails: the error is returned and nothing is written.
\<close>

theorem no_workers_jobs_error_counterexample:
  "dom (Workers \<lparr>Workers = Map.empty :: string \<rightharpoonup> go_int\<rparr>) = {} \<and>
   workers_ok Map.empty (ID the_service) = Inr \<lparr>Workers = Map.empty\<rparr> \<and>
   fst (CmdList ''web'' (workers_ok Map.empty) services_ok jobs_failing [] []) \<noteq> None \<and>
   snd (CmdList ''web'' (workers_ok Map.empty) services_ok jobs_failing [] []) = []"
  by (simp add: CmdList_def services_ok_def workers_ok_def jobs_failing_def)

text \<open>
  Claim C6, as amended. With no declared target, the early return and the single code
  path both succeed and end with the same usage line (0 out of the declared worker
  scale), but they do not write the same: the early return writes "No running workers
  found" and no table, the single code path writes a table with one row of scale 0
  for each target a job names. The summary of the single code path is empty only
  when there is no job.
\<close>

theorem unified_differs_from_short_circuit:
  assumes svc: "isv svcName = Inr (Some service)"
    and ws: "iw (ID service) = Inr workers"
    and e: "dom (Workers workers) = {}"
    and js: "ij (ID service) ''worker'' 1 1000 = Inr jobs"
    and r2: "go_range (fold count_job jobs Map.empty) order2"
  shows "CmdList svcName iw isv ij order1 order2 =
           (None,
            [Log (''No running workers found for '' @ svcName),
             Log (usage_line ''0'' (fmt_d (WorkerScale service)) svcName)]) \<and>
         CmdList_unified svcName iw isv ij order1 order2 =
           (None,
            [Table (table_header #
                    map (\<lambda>t. [t, ''0'', fmt_d (of_nat (running_jobs jobs t))]) order2),
             Log (usage_line ''0'' (fmt_d (WorkerScale service)) svcName)]) \<and>
         set order2 = Target ` set jobs \<and>
         (fold count_job jobs Map.empty = Map.empty \<longleftrightarrow> jobs = [])"
proof -
  have s: "fold count_job jobs Map.empty = summary_of Map.empty jobs"
    by (auto simp: fun_eq_iff fold_count_job summary_of_def)
  have d: "dom (summary_of Map.empty jobs) = Target ` set jobs"
    by (simp add: dom_summary_of)
  from r2 have r: "go_range (summary_of Map.empty jobs) order2"
    by (simp only: s)
  then have o: "set order2 = Target ` set jobs"
    by (simp add: go_range_def d)
  have z: "(\<Sum>t\<in>dom (summary_of Map.empty jobs). scale (the (summary_of Map.empty jobs t))) = 0"
    by (rule sum.neutral) (auto simp: summary_of_def split: if_splits)
  have rows: "map (\<lambda>k. row_of (k, the (summary_of Map.empty jobs k))) order2 =
      map (\<lambda>t. [t, ''0'', fmt_d (of_nat (running_jobs jobs t))]) order2"
    using o by (simp add: row_of_summary_empty)
  have "CmdList svcName iw isv ij order1 order2 =
           (None,
            [Log (''No running workers found for '' @ svcName),
             Log (usage_line ''0'' (fmt_d (WorkerScale service)) svcName)])"
    using svc ws js e by (simp add: CmdList_def CmdList_workerJobs_empty del: dom_eq_empty_conv)
  moreover have "CmdList_unified svcName iw isv ij order1 order2 =
           (None,
            [Table (table_header #
                    map (\<lambda>t. [t, ''0'', fmt_d (of_nat (running_jobs jobs t))]) order2),
             Log (usage_line ''0'' (fmt_d (WorkerScale service)) svcName)])"
    using svc ws js
    by (simp add: CmdList_unified_def summary_of_empty [OF e] table_rows_range [OF r] z rows
        fmt_d_0)
  moreover have "fold count_job jobs Map.empty = Map.empty \<longleftrightarrow> jobs = []"
  proof
    assume "fold count_job jobs Map.empty = Map.empty"
    then have "dom (summary_of Map.empty jobs) = {}"
      by (simp add: s)
    then show "jobs = []"
      by (simp add: d)
  qed simp
  ultimately show ?thesis
    using o by blast
qed

theorem unified_differs_from_short_circuit_witness:
  "services_ok ''web'' = Inr (Some the_service) \<and>
   workers_ok Map.empty (ID the_service) = Inr \<lparr>Workers = Map.empty\<rparr> \<and>
   jobs_ok jobs3 (ID the_service) ''worker'' 1 1000 = Inr jobs3 \<and>
   go_range (fold count_job jobs3 Map.empty) [''worker-x''] \<and>
   CmdList ''web'' (workers_ok Map.empty) services_ok (jobs_ok jobs3) [] [''worker-x''] =
     (None, [Log ''No running workers found for web'', Log (usage_line ''0'' ''5'' ''web'')]) \<and>
   CmdList_unified ''web'' (workers_ok Map.empty) services_ok (jobs_ok jobs3) [] [''worker-x''] =
     (None,
      [Table [[''TARGET'', ''SCALE'', ''RUNNING JOBS''], [''worker-x'', ''0'', ''1'']],
       Log (usage_line ''0'' ''5'' ''web'')])"
proof -
  have svc: "services_ok ''web'' = Inr (Some the_service)"
    by (simp add: services_ok_def)
  have ws: "workers_ok Map.empty (ID the_service) = Inr \<lparr>Workers = Map.empty\<rparr>"
    by (simp add: workers_ok_def)
  have e: "dom (Workers \<lparr>Workers = Map.empty :: string \<rightharpoonup> go_int\<rparr>) = {}"
    by simp
  have js: "jobs_ok jobs3 (ID the_service) ''worker'' 1 1000 = Inr jobs3"
    by (simp add: jobs_ok_def)
  have f: "fmt_d (WorkerScale the_service) = ''5''" "fmt_d 1 = ''1''"
    by (simp_all add: fmt_d_def dec_digits.simps the_service_def)
  have n: "running_jobs jobs3 ''worker-x'' = 1"
    by (simp add: running_jobs_def jobs3_def)
  from unified_differs_from_short_circuit
         [where isv = services_ok and svcName = "''web''" and iw = "workers_ok Map.empty"
            and ij = "jobs_ok jobs3" and ?order1.0 = "[]", OF svc ws e js range3x]
  show ?thesis
    using svc ws js range3x by (simp add: f n table_header_def)
qed

text \<open>
  Claim C6 as stated fails: the two are not observably equivalent. With one running
  job of an undeclared target the outputs differ, and they differ with no job at all.
\<close>

theorem unified_differs_from_short_circuit_counterexample:
  "CmdList ''web'' (workers_ok Map.empty) services_ok (jobs_ok jobs3) [] [''worker-x''] \<noteq>
   CmdList_unified ''web'' (workers_ok Map.empty) services_ok (jobs_ok jobs3) [] [''worker-x''] \<and>
   CmdList ''web'' (workers_ok Map.empty) services_ok (jobs_ok []) [] [] \<noteq>
   CmdList_unified ''web'' (workers_ok Map.empty) services_ok (jobs_ok []) [] []"
  by (simp add: CmdList_def CmdList_unified_def services_ok_def workers_ok_def jobs_ok_def
      CmdList_workerJobs_def Let_def declare_workers_def range_entries_def map_filter_simps
      jobs3_def count_job_def table_rows_def)

subsection \<open>The order of the rows\<close>

text \<open>
  Claim C7, as amended. Two runs on the same inputs return the same result, write the
  same header and the same usage line, and write the same rows up to their order:
  the rows follow the order in which the loop of line 54 visits the map, which the
  language does not fix.
\<close>

theorem rows_same_up_to_order:
  assumes svc: "isv svcName = Inr (Some service)"
    and ws: "iw (ID service) = Inr workers"
    and js: "ij (ID service) ''worker'' 1 1000 = Inr jobs"
    and r1: "go_range (Workers workers) order1"
    and r1': "go_range (Workers workers) order1'"
    and s: "CmdList_workerJobs (Workers workers) jobs order1 = Some summary"
    and r2: "go_range summary order2"
    and r2': "go_range summary order2'"
  shows "\<exists>rows rows' line.
           CmdList svcName iw isv ij order1 order2 =
             (None, [Table (table_header # rows), Log line]) \<and>
           CmdList svcName iw isv ij order1' order2' =
             (None, [Table (table_header # rows'), Log line]) \<and>
           mset rows = mset rows' \<and>
           map hd rows = order2 \<and> map hd rows' = order2'"
proof -
  let ?row = "\<lambda>k. row_of (k, the (summary k))"
  let ?line = "usage_line (fmt_d (\<Sum>t\<in>dom summary. scale (the (summary t))))
                 (fmt_d (WorkerScale service)) svcName"
  have s': "CmdList_workerJobs (Workers workers) jobs order1' = Some summary"
    using s by (simp add: CmdList_workerJobs_eq [OF r1] CmdList_workerJobs_eq [OF r1'])
  have "CmdList svcName iw isv ij order1 order2 =
      (None, [Table (table_header # map ?row order2), Log ?line])"
    by (simp add: CmdList_def svc ws js s table_rows_range [OF r2])
  moreover have "CmdList svcName iw isv ij order1' order2' =
      (None, [Table (table_header # map ?row order2'), Log ?line])"
    by (simp add: CmdList_def svc ws js s' table_rows_range [OF r2'])
  moreover have "mset (map ?row order2) = mset (map ?row order2')"
    using mset_range [OF r2 r2'] by simp
  moreover have "map hd (map ?row order2) = order2" "map hd (map ?row order2') = order2'"
    by (simp_all add: row_of_def comp_def)
  ultimately show ?thesis by blast
qed

theorem rows_same_up_to_order_witness:
  "\<exists>rows rows' line.
     CmdList ''web'' (workers_ok declared1) services_ok (jobs_ok jobs1)
       [''worker-b'', ''worker-a''] [''worker-a'', ''worker-b''] =
         (None, [Table (table_header # rows), Log line]) \<and>
     CmdList ''web'' (workers_ok declared1) services_ok (jobs_ok jobs1)
       [''worker-a'', ''worker-b''] [''worker-b'', ''worker-a''] =
         (None, [Table (table_header # rows'), Log line]) \<and>
     mset rows = mset rows' \<and>
     map hd rows = [''worker-a'', ''worker-b''] \<and> map hd rows' = [''worker-b'', ''worker-a'']"
proof -
  have svc: "services_ok ''web'' = Inr (Some the_service)"
    by (simp add: services_ok_def)
  have ws: "workers_ok declared1 (ID the_service) = Inr \<lparr>Workers = declared1\<rparr>"
    by (simp add: workers_ok_def)
  have js: "jobs_ok jobs1 (ID the_service) ''worker'' 1 1000 = Inr jobs1"
    by (simp add: jobs_ok_def)
  have r1: "go_range (Workers \<lparr>Workers = declared1\<rparr>) [''worker-b'', ''worker-a'']"
    and r1': "go_range (Workers \<lparr>Workers = declared1\<rparr>) [''worker-a'', ''worker-b'']"
    using range1 range1_ab by simp_all
  have s: "CmdList_workerJobs (Workers \<lparr>Workers = declared1\<rparr>) jobs1
      [''worker-b'', ''worker-a''] = Some (summary_of declared1 jobs1)"
    using summary1 by simp
  show ?thesis
    by (rule rows_same_up_to_order
         [where isv = services_ok and svcName = "''web''" and iw = "workers_ok declared1"
            and ij = "jobs_ok jobs1", OF svc ws js r1 r1' s range_summary1])
qed

text \<open>
  Claim C7 as stated fails, the order of the rows is not fixed: on scenario 1, the
  two orders in which the runtime may visit the summary give two different tables.
\<close>

theorem row_order_not_fixed_counterexample:
  "CmdList_workerJobs declared1 jobs1 [''worker-b'', ''worker-a''] =
     Some (summary_of declared1 jobs1) \<and>
   go_range (summary_of declared1 jobs1) [''worker-a'', ''worker-b''] \<and>
   go_range (summary_of declared1 jobs1) [''worker-b'', ''worker-a''] \<and>
   CmdList ''web'' (workers_ok declared1) services_ok (jobs_ok jobs1)
     [''worker-b'', ''worker-a''] [''worker-a'', ''worker-b''] \<noteq>
   CmdList ''web'' (workers_ok declared1) services_ok (jobs_ok jobs1)
     [''worker-b'', ''worker-a''] [''worker-b'', ''worker-a'']"
proof -
  have "CmdList ''web'' (workers_ok declared1) services_ok (jobs_ok jobs1)
     [''worker-b'', ''worker-a''] [''worker-b'', ''worker-a''] =
   (None,
    [Table [[''TARGET'', ''SCALE'', ''RUNNING JOBS''],
            [''worker-b'', ''1'', ''0''],
            [''worker-a'', ''2'', ''2'']],
     Log (usage_line ''3'' ''5'' ''web'')])"
  by (simp add: CmdList_def services_ok_def workers_ok_def jobs_ok_def the_service_def
      CmdList_workerJobs_def Let_def declare_workers_def range_entries_def map_filter_simps
      declared1_def jobs1_def count_job_def table_rows_def fmt_d_def dec_digits.simps)
  then show ?thesis
    using summary1 range_summary1 by (simp add: scenario1_output)
qed

subsection \<open>Errors\<close>

text \<open>
  Claim C8. When the service is found and the declarations are fetched, an error of
  the fetch of the jobs is the error \<^verbatim>\<open>CmdList\<close> returns, with nothing written,
  whatever the declarations are: also when they are empty, since the jobs are
  fetched (line 26) before the test of line 38.
\<close>

theorem jobs_error_is_returned:
  assumes "isv svcName = Inr (Some service)"
    and "iw (ID service) = Inr workers"
    and "ij (ID service) ''worker'' 1 1000 = Inl err"
  shows "CmdList svcName iw isv ij order1 order2 = (Some err, [])"
  using assms by (simp add: CmdList_def)

theorem jobs_error_is_returned_witness:
  "services_ok ''web'' = Inr (Some the_service) \<and>
   workers_ok Map.empty (ID the_service) = Inr \<lparr>Workers = Map.empty\<rparr> \<and>
   jobs_failing (ID the_service) ''worker'' 1 1000 = Inl (Error ''502 Bad Gateway'') \<and>
   CmdList ''web'' (workers_ok Map.empty) services_ok jobs_failing [] [] =
     (Some (Error ''502 Bad Gateway''), [])"
proof -
  have svc: "services_ok ''web'' = Inr (Some the_service)"
    by (simp add: services_ok_def)
  have ws: "workers_ok Map.empty (ID the_service) = Inr \<lparr>Workers = Map.empty\<rparr>"
    by (simp add: workers_ok_def)
  have js: "jobs_failing (ID the_service) ''worker'' 1 1000 = Inl (Error ''502 Bad Gateway'')"
    by (simp add: jobs_failing_def)
  from jobs_error_is_returned
         [where isv = services_ok and svcName = "''web''" and iw = "workers_ok Map.empty"
            and ij = jobs_failing and ?order1.0 = "[]" and ?order2.0 = "[]", OF svc ws js]
  show ?thesis
    using svc ws js by simp
qed

subsection \<open>Disassociate and invites send\<close>

text \<open>
  Claim C9. For every alias and whatever \<^verbatim>\<open>DeleteBreadcrumb\<close> does to the settings,
  \<^verbatim>\<open>Disassociate\<close> returns no error and writes the warning that the git remote has
  not been removed; with the deletion modelled from the specification, an alias that
  has no breadcrumb leaves the settings as they were.
\<close>

theorem Disassociate_succeeds_and_warns:
  "fst (CmdDisassociate alias (Disassociate del) settings) = None \<and>
   snd (snd (CmdDisassociate alias (Disassociate del) settings)) =
     [''WARNING: Your existing git remote *has not* been removed.\<newline>\<newline>'',
      ''Association cleared.\<newline>''] \<and>
   (alias \<notin> dom environments \<longrightarrow>
      CmdDisassociate alias (Disassociate DeleteBreadcrumb) environments =
        (None, environments,
         [''WARNING: Your existing git remote *has not* been removed.\<newline>\<newline>'',
          ''Association cleared.\<newline>'']))"
  by (auto simp: CmdDisassociate_def Disassociate_def DeleteBreadcrumb_def fun_eq_iff)

theorem Disassociate_succeeds_and_warns_witness:
  "''prod'' \<notin> dom [''staging'' \<mapsto> ''env-1''] \<and>
   CmdDisassociate ''prod'' (Disassociate DeleteBreadcrumb) [''staging'' \<mapsto> ''env-1''] =
     (None, [''staging'' \<mapsto> ''env-1''],
      [''WARNING: Your existing git remote *has not* been removed.\<newline>\<newline>'',
       ''Association cleared.\<newline>''])"
  using Disassociate_succeeds_and_warns
          [of "''prod''" DeleteBreadcrumb "[''staging'' \<mapsto> ''env-1'']"
             "[''staging'' \<mapsto> ''env-1'']"]
  by simp

text \<open>
  Claim C10. Every call of \<^verbatim>\<open>CmdSend\<close> the action makes passes the role "admin" when
  the flag \<^verbatim>\<open>-a\<close> is set and "member" otherwise, whatever the flag \<^verbatim>\<open>-m\<close> is;
  when the sign-in and the association check succeed there is exactly one such call.
\<close>

theorem send_role_from_admin_flag:
  "(\<forall>c \<in> set (snd (SendSubCmd_Action signin association cmdSend envName email member adminRole)).
      fst (snd c) \<in> {''member'', ''admin''} \<and> (fst (snd c) = ''admin'' \<longleftrightarrow> adminRole)) \<and>
   (signin = None \<and> association = None \<longrightarrow>
      snd (SendSubCmd_Action signin association cmdSend envName email member adminRole) =
        [(email, if adminRole then ''admin'' else ''member'', envName)])"
  by (auto simp: SendSubCmd_Action_def Let_def split: option.splits)

theorem send_role_from_admin_flag_witness:
  "snd (SendSubCmd_Action None None send_ok ''staging'' ''coworker@catalyze.io'' True True) =
     [(''coworker@catalyze.io'', ''admin'', ''staging'')] \<and>
   snd (SendSubCmd_Action None None send_ok ''staging'' ''coworker@catalyze.io'' True False) =
     [(''coworker@catalyze.io'', ''member'', ''staging'')]"
  using send_role_from_admin_flag
          [of None None send_ok "''staging''" "''coworker@catalyze.io''" True True]
        send_role_from_admin_flag
          [of None None send_ok "''staging''" "''coworker@catalyze.io''" True False]
  by simp

end
